theory Spec2Isabelle
  imports Complex_Main
begin

section \<open>NumPy arrays, as far as the generator uses them\<close>

text \<open>
  \<^verbatim>\<open>regression_generator.py\<close> holds two NumPy arrays and only ever moves their
  entries around: it resizes the target array once, takes row slices and flattens a
  slice. An array is modelled by its shape and its entries in row-major (C) order, with
  the flag that says whether it owns its buffer (a slice is a view and does not). The
  entries are floating point numbers in the source; no arithmetic is done on them, so
  they are carried as reals.
\<close>

datatype error = ValueError | GeneratorFailure

record ndarray =
  shape :: "nat list"
  entries :: "real list"
  owndata :: bool

definition nd_size :: "ndarray \<Rightarrow> nat" where
  "nd_size a = prod_list (shape a)"

text \<open>
  Python's resolution of the bounds of \<^verbatim>\<open>a[start:stop]\<close> (step 1) against a length:
  a negative bound counts from the end, and both bounds are clamped to the length, so a
  slice never raises.
\<close>

definition slice_bound :: "int \<Rightarrow> nat \<Rightarrow> nat" where
  "slice_bound i len =
     (if i < 0 then nat (max (i + int len) 0) else nat (min i (int len)))"

text \<open>
  \<^verbatim>\<open>a[start:stop, :]\<close>. Two indices on an array of fewer than two dimensions raise
  IndexError, which is the value \<open>None\<close> here; otherwise the result is the view of the
  rows from the resolved start up to the resolved stop (none when stop is not beyond
  start).
\<close>

definition getitem_rows :: "ndarray \<Rightarrow> int \<Rightarrow> int \<Rightarrow> ndarray option" where
  "getitem_rows a start stop =
     (case shape a of
        r # c # rest \<Rightarrow>
          (let lo = slice_bound start r;
               hi = slice_bound stop r;
               stride = prod_list (c # rest)
           in Some \<lparr>shape = (hi - lo) # c # rest,
                     entries = take ((hi - lo) * stride) (drop (lo * stride) (entries a)),
                     owndata = False\<rparr>)
      | _ \<Rightarrow> None)"

text \<open>\<^verbatim>\<open>a.flatten()\<close>: a one-dimensional copy.\<close>

definition flatten :: "ndarray \<Rightarrow> ndarray" where
  "flatten a = \<lparr>shape = [nd_size a], entries = entries a, owndata = True\<rparr>"

text \<open>
  \<^verbatim>\<open>a.resize(new_shape)\<close>, in place: a negative dimension is a ValueError; so is a
  change of the number of entries on an array that does not own its buffer. Otherwise
  the entries are kept in row-major order, cut or padded with zeros to the new size.
  (NumPy also refuses to change the size of an array that other objects refer to; the
  constructor holds the only reference to the array it resizes.)
\<close>

definition resize :: "ndarray \<Rightarrow> int list \<Rightarrow> error + ndarray" where
  "resize a new_shape =
     (if list_ex (\<lambda>d. d < 0) new_shape then Inl ValueError
      else
        (let dims = map nat new_shape; newsize = prod_list dims in
         if newsize \<noteq> nd_size a \<and> \<not> owndata a then Inl ValueError
         else Inr (a\<lparr>shape := dims,
                      entries := take newsize
                        (entries a @ replicate (newsize - length (entries a)) 0)\<rparr>)))"

section \<open>The generator\<close>

text \<open>
  The fields of \<^verbatim>\<open>RegressionGenerator\<close>. The constructor first sets \<^verbatim>\<open>X\<close> and
  \<^verbatim>\<open>y\<close> to \<^verbatim>\<open>None\<close> and then fills them in \<^verbatim>\<open>__configure\<close>; an object exists only
  once the constructor has returned, so both fields hold arrays. The two fields of the
  last batch stay optional: they are \<^verbatim>\<open>None\<close> until a batch has been read.
\<close>

record generator =
  self_X :: ndarray
  self_y :: ndarray
  num_samples :: int
  num_features :: int
  num_target_tasks :: int
  num_informative :: int
  instance_index :: int
  current_instance_y :: "ndarray option"
  current_instance_x :: "ndarray option"

text \<open>
  \<^verbatim>\<open>__init__\<close> with \<^verbatim>\<open>__configure\<close>. The call of scikit-learn's \<^verbatim>\<open>make_regression\<close>
  draws random numbers, so its outcome is an argument: either its failure, which the
  constructor passes on, or the pair of arrays it returned.
\<close>

definition init ::
  "error + ndarray \<times> ndarray \<Rightarrow> int \<Rightarrow> int \<Rightarrow> int \<Rightarrow> int \<Rightarrow> error + generator" where
  "init made n_samples n_features n_informative n_targets =
     (case made of
        Inl e \<Rightarrow> Inl e
      | Inr (Xm, ym) \<Rightarrow>
          (case resize ym [int (nd_size ym), n_targets] of
             Inl e \<Rightarrow> Inl e
           | Inr yr \<Rightarrow>
               Inr \<lparr>self_X = Xm, self_y = yr,
                    num_samples = n_samples,
                    num_features = n_features,
                    num_target_tasks = n_targets,
                    num_informative = n_informative,
                    instance_index = 0,
                    current_instance_y = None,
                    current_instance_x = None\<rparr>))"

text \<open>
  Modelled from the spec: the contract of the external batch generator, whose code is
  scikit-learn's. It returns a feature matrix of shape [sampleCount, featureCount] and a
  target vector or matrix with sampleCount rows of targetCount entries (whatever its
  shape after squeezing).
\<close>

definition make_regression_ok :: "int \<Rightarrow> int \<Rightarrow> int \<Rightarrow> ndarray \<times> ndarray \<Rightarrow> bool" where
  "make_regression_ok n_samples n_features n_targets made =
     (0 \<le> n_samples \<and> 0 \<le> n_features \<and> 0 \<le> n_targets \<and>
      shape (fst made) = [nat n_samples, nat n_features] \<and>
      length (entries (fst made)) = nat n_samples * nat n_features \<and>
      nd_size (snd made) = nat n_samples * nat n_targets \<and>
      length (entries (snd made)) = nat n_samples * nat n_targets)"

text \<open>
  The methods. Each takes the object and returns its result with the object after the
  call, so that what a method leaves unchanged is a statement about it.
\<close>

definition estimated_remaining_instances :: "generator \<Rightarrow> int \<times> generator" where
  "estimated_remaining_instances g = (num_samples g - instance_index g, g)"

definition has_more_instances :: "generator \<Rightarrow> bool \<times> generator" where
  "has_more_instances g = (num_samples g - instance_index g > 0, g)"

text \<open>
  \<^verbatim>\<open>next_instance\<close>: the index moves first; then the two slices are taken inside the
  \<^verbatim>\<open>try\<close>, the target slice flattened for fewer than two target tasks; an IndexError
  from either slice sets both fields of the last batch to \<^verbatim>\<open>None\<close>.
\<close>

definition next_instance ::
  "int \<Rightarrow> generator \<Rightarrow> (ndarray option \<times> ndarray option) \<times> generator" where
  "next_instance batch_size g =
     (let g1 = g\<lparr>instance_index := instance_index g + batch_size\<rparr>;
          handler = (\<lambda>s. s\<lparr>current_instance_x := None, current_instance_y := None\<rparr>);
          g5 =
            (case getitem_rows (self_X g1) (instance_index g1 - batch_size) (instance_index g1) of
               None \<Rightarrow> handler g1
             | Some bx \<Rightarrow>
                 (let g2 = g1\<lparr>current_instance_x := Some bx\<rparr> in
                  case getitem_rows (self_y g2) (instance_index g2 - batch_size) (instance_index g2) of
                    None \<Rightarrow> handler g2
                  | Some by \<Rightarrow>
                      (let g3 = g2\<lparr>current_instance_y := Some by\<rparr> in
                       if num_target_tasks g3 < 2
                       then g3\<lparr>current_instance_y := map_option flatten (current_instance_y g3)\<rparr>
                       else g3)))
      in ((current_instance_x g5, current_instance_y g5), g5))"

definition is_restartable :: "generator \<Rightarrow> bool \<times> generator" where
  "is_restartable g = (True, g)"

text \<open>\<^verbatim>\<open>restart\<close> has the body \<^verbatim>\<open>pass\<close>.\<close>

definition restart :: "generator \<Rightarrow> unit \<times> generator" where
  "restart g = ((), g)"

definition get_num_attributes :: "generator \<Rightarrow> int \<times> generator" where
  "get_num_attributes g = (num_features g, g)"

definition get_num_targets :: "generator \<Rightarrow> int \<times> generator" where
  "get_num_targets g = (num_target_tasks g, g)"

definition get_last_instance ::
  "generator \<Rightarrow> (ndarray option \<times> ndarray option) \<times> generator" where
  "get_last_instance g = ((current_instance_x g, current_instance_y g), g)"

section \<open>Sequences of calls\<close>

text \<open>
  A caller drives the object by a sequence of method calls; the states it can reach
  are those after such a sequence, started on a constructed object.
\<close>

datatype call =
    NextInstance int
  | Restart
  | EstimatedRemaining
  | HasMore
  | IsRestartable
  | GetNumAttributes
  | GetNumTargets
  | GetLastInstance

fun exec :: "call \<Rightarrow> generator \<Rightarrow> generator" where
  "exec (NextInstance b) g = snd (next_instance b g)"
| "exec Restart g = snd (restart g)"
| "exec EstimatedRemaining g = snd (estimated_remaining_instances g)"
| "exec HasMore g = snd (has_more_instances g)"
| "exec IsRestartable g = snd (is_restartable g)"
| "exec GetNumAttributes g = snd (get_num_attributes g)"
| "exec GetNumTargets g = snd (get_num_targets g)"
| "exec GetLastInstance g = snd (get_last_instance g)"

definition run :: "call list \<Rightarrow> generator \<Rightarrow> generator" where
  "run calls g = fold exec calls g"

text \<open>Reading \<open>k\<close> batches of one sample each, collecting what the calls return.\<close>

fun read_singly :: "nat \<Rightarrow> generator \<Rightarrow> (ndarray option \<times> ndarray option) list \<times> generator" where
  "read_singly 0 g = ([], g)"
| "read_singly (Suc k) g =
     (let (r, g1) = next_instance 1 g;
          (rs, g2) = read_singly k g1
      in (r # rs, g2))"

text \<open>The sum of the batch sizes a sequence of calls asks for.\<close>

fun requested :: "call list \<Rightarrow> int" where
  "requested [] = 0"
| "requested (NextInstance b # cs) = b + requested cs"
| "requested (c # cs) = requested cs"

fun is_read :: "call \<Rightarrow> bool" where
  "is_read (NextInstance b) = True"
| "is_read c = False"


text \<open>Row \<open>k\<close> up to row \<open>k + cnt\<close> of a matrix given by its entries and its row length.\<close>

definition rows_of :: "real list \<Rightarrow> nat \<Rightarrow> nat \<Rightarrow> nat \<Rightarrow> real list" where
  "rows_of es width k cnt = take (cnt * width) (drop (k * width) es)"

text \<open>A small stream for the concrete runs: ten samples of three features, one target.\<close>

definition demo_X :: ndarray where
  "demo_X = \<lparr>shape = [10, 3],
     entries = [1, 2, 3, 4, 5, 6, 7, 8, 9, 10, 11, 12, 13, 14, 15,
                16, 17, 18, 19, 20, 21, 22, 23, 24, 25, 26, 27, 28, 29, 30],
     owndata = True\<rparr>"

definition demo_y :: ndarray where
  "demo_y = \<lparr>shape = [10],
     entries = [101, 102, 103, 104, 105, 106, 107, 108, 109, 110],
     owndata = False\<rparr>"

definition demo :: generator where
  "demo = \<lparr>self_X = demo_X,
     self_y = \<lparr>shape = [10, 1],
       entries = [101, 102, 103, 104, 105, 106, 107, 108, 109, 110],
       owndata = False\<rparr>,
     num_samples = 10, num_features = 3, num_target_tasks = 1, num_informative = 2,
     instance_index = 0, current_instance_y = None, current_instance_x = None\<rparr>"

text \<open>
  The batch that holds sample \<open>k\<close> alone, for a dataset of \<open>f\<close> features and \<open>t\<close>
  targets per sample: one row of features, and the sample's targets, flat for fewer than
  two targets.
\<close>

definition sample_batch ::
  "ndarray \<Rightarrow> ndarray \<Rightarrow> nat \<Rightarrow> nat \<Rightarrow> nat \<Rightarrow> ndarray option \<times> ndarray option" where
  "sample_batch Xm ym f t k =
     (Some \<lparr>shape = [1, f], entries = rows_of (entries Xm) f k 1, owndata = False\<rparr>,
      Some (if t < 2
            then \<lparr>shape = [t], entries = rows_of (entries ym) t k 1, owndata = True\<rparr>
            else \<lparr>shape = [1, t], entries = rows_of (entries ym) t k 1, owndata = False\<rparr>))"

text \<open>A second small stream: three samples of one feature, two targets each.\<close>

definition duo_X :: ndarray where
  "duo_X = \<lparr>shape = [3, 1], entries = [1, 2, 3], owndata = True\<rparr>"

definition duo_y :: ndarray where
  "duo_y = \<lparr>shape = [3, 2], entries = [11, 12, 21, 22, 31, 32], owndata = True\<rparr>"

definition duo :: generator where
  "duo = \<lparr>self_X = duo_X,
     self_y = \<lparr>shape = [6, 2],
       entries = [11, 12, 21, 22, 31, 32, 0, 0, 0, 0, 0, 0],
       owndata = True\<rparr>,
     num_samples = 3, num_features = 1, num_target_tasks = 2, num_informative = 1,
     instance_index = 0, current_instance_y = None, current_instance_x = None\<rparr>"

section \<open>Basic facts\<close>

lemma demo_init: "init (Inr (demo_X, demo_y)) 10 3 2 1 = Inr demo"
  by (simp add: init_def resize_def nd_size_def demo_X_def demo_y_def demo_def)

lemma demo_ok: "make_regression_ok 10 3 1 (demo_X, demo_y)"
  by (simp add: make_regression_ok_def nd_size_def demo_X_def demo_y_def)

lemma next_instance_frame:
  "self_X (snd (next_instance b g)) = self_X g"
  "self_y (snd (next_instance b g)) = self_y g"
  "num_samples (snd (next_instance b g)) = num_samples g"
  "num_features (snd (next_instance b g)) = num_features g"
  "num_target_tasks (snd (next_instance b g)) = num_target_tasks g"
  "num_informative (snd (next_instance b g)) = num_informative g"
  by (simp_all add: next_instance_def Let_def split: option.splits)

lemma next_instance_index:
  "instance_index (snd (next_instance b g)) = instance_index g + b"
  by (simp add: next_instance_def Let_def split: option.splits)

lemma next_instance_result:
  "fst (next_instance b g) =
     (current_instance_x (snd (next_instance b g)), current_instance_y (snd (next_instance b g)))"
  by (simp add: next_instance_def Let_def)

lemma next_instance_changes:
  "snd (next_instance b g) =
     g\<lparr>instance_index := instance_index g + b,
       current_instance_y := snd (fst (next_instance b g)),
       current_instance_x := fst (fst (next_instance b g))\<rparr>"
  by (simp add: next_instance_def Let_def split: option.splits)

lemma exec_frame:
  "self_X (exec c g) = self_X g"
  "self_y (exec c g) = self_y g"
  "num_samples (exec c g) = num_samples g"
  "num_features (exec c g) = num_features g"
  "num_target_tasks (exec c g) = num_target_tasks g"
  "num_informative (exec c g) = num_informative g"
  by (cases c; simp add: next_instance_frame restart_def estimated_remaining_instances_def
        has_more_instances_def is_restartable_def get_num_attributes_def get_num_targets_def
        get_last_instance_def)+

lemma run_Nil: "run [] g = g"
  by (simp add: run_def)

lemma run_Cons: "run (c # cs) g = run cs (exec c g)"
  by (simp add: run_def)

lemma run_frame:
  "self_X (run cs g) = self_X g \<and> self_y (run cs g) = self_y g \<and>
   num_samples (run cs g) = num_samples g \<and> num_features (run cs g) = num_features g \<and>
   num_target_tasks (run cs g) = num_target_tasks g \<and>
   num_informative (run cs g) = num_informative g"
  by (induction cs arbitrary: g) (simp_all add: run_Nil run_Cons exec_frame)

lemma exec_index:
  "instance_index (exec c g) = instance_index g + requested [c]"
  by (cases c; simp add: next_instance_index restart_def estimated_remaining_instances_def
        has_more_instances_def is_restartable_def get_num_attributes_def get_num_targets_def
        get_last_instance_def)

lemma requested_Cons: "requested (c # cs) = requested [c] + requested cs"
  by (cases c) simp_all

lemma run_index: "instance_index (run cs g) = instance_index g + requested cs"
proof (induction cs arbitrary: g)
  case Nil
  show ?case by (simp add: run_Nil)
next
  case (Cons c cs)
  have "instance_index (run (c # cs) g) = instance_index (exec c g) + requested cs"
    by (simp add: run_Cons Cons.IH)
  also have "\<dots> = instance_index g + requested (c # cs)"
    using requested_Cons [of c cs] by (simp add: exec_index)
  finally show ?case .
qed


lemma exec_no_read:
  "\<not> is_read c \<Longrightarrow> exec c g = g"
  by (cases c; simp add: restart_def estimated_remaining_instances_def
        has_more_instances_def is_restartable_def get_num_attributes_def get_num_targets_def
        get_last_instance_def)

lemma run_no_read: "\<not> list_ex is_read cs \<Longrightarrow> run cs g = g"
  by (induction cs arbitrary: g) (simp_all add: run_Nil run_Cons exec_no_read)

lemma init_fields:
  assumes "init made n f i t = Inr g0"
  shows "num_samples g0 = n" "num_features g0 = f" "num_target_tasks g0 = t"
    "num_informative g0 = i" "instance_index g0 = 0"
    "current_instance_x g0 = None" "current_instance_y g0 = None"
  using assms by (auto simp: init_def split: sum.splits prod.splits)

lemmas eval_defs = run_def next_instance_def getitem_rows_def slice_bound_def flatten_def
  nd_size_def restart_def estimated_remaining_instances_def has_more_instances_def
  demo_def demo_X_def Let_def

lemma slice_bound_nonneg: "0 \<le> i \<Longrightarrow> slice_bound i len = min (nat i) len"
  by (auto simp: slice_bound_def min_def)

lemma getitem_rows_matrix:
  assumes "shape a = [r, c]" and "0 \<le> i" and "0 \<le> j"
  shows "getitem_rows a i j =
     Some \<lparr>shape = [min (nat j) r - min (nat i) r, c],
           entries = rows_of (entries a) c (min (nat i) r) (min (nat j) r - min (nat i) r),
           owndata = False\<rparr>"
  using assms by (simp add: getitem_rows_def slice_bound_nonneg rows_of_def Let_def)

lemma getitem_rows_some:
  "shape a = [r, c] \<Longrightarrow> getitem_rows a i j \<noteq> None"
  by (simp add: getitem_rows_def Let_def)

lemma next_instance_matrix:
  assumes X: "shape (self_X g) = [N, F]" and Y: "shape (self_y g) = [M, T]"
    and c: "0 \<le> instance_index g" and b: "0 \<le> b"
  shows "fst (next_instance b g) =
     (Some \<lparr>shape = [min (nat (instance_index g + b)) N - min (nat (instance_index g)) N, F],
            entries = rows_of (entries (self_X g)) F (min (nat (instance_index g)) N)
              (min (nat (instance_index g + b)) N - min (nat (instance_index g)) N),
            owndata = False\<rparr>,
      Some (if num_target_tasks g < 2
            then \<lparr>shape = [(min (nat (instance_index g + b)) M - min (nat (instance_index g)) M) * T],
                  entries = rows_of (entries (self_y g)) T (min (nat (instance_index g)) M)
                    (min (nat (instance_index g + b)) M - min (nat (instance_index g)) M),
                  owndata = True\<rparr>
            else \<lparr>shape = [min (nat (instance_index g + b)) M - min (nat (instance_index g)) M, T],
                  entries = rows_of (entries (self_y g)) T (min (nat (instance_index g)) M)
                    (min (nat (instance_index g + b)) M - min (nat (instance_index g)) M),
                  owndata = False\<rparr>))"
proof -
  have cb: "0 \<le> instance_index g + b" using c b by simp
  have gx: "getitem_rows (self_X g) (instance_index g) (instance_index g + b) =
     Some \<lparr>shape = [min (nat (instance_index g + b)) N - min (nat (instance_index g)) N, F],
            entries = rows_of (entries (self_X g)) F (min (nat (instance_index g)) N)
              (min (nat (instance_index g + b)) N - min (nat (instance_index g)) N),
            owndata = False\<rparr>"
    by (rule getitem_rows_matrix [OF X c cb])
  have gy: "getitem_rows (self_y g) (instance_index g) (instance_index g + b) =
     Some \<lparr>shape = [min (nat (instance_index g + b)) M - min (nat (instance_index g)) M, T],
            entries = rows_of (entries (self_y g)) T (min (nat (instance_index g)) M)
              (min (nat (instance_index g + b)) M - min (nat (instance_index g)) M),
            owndata = False\<rparr>"
    by (rule getitem_rows_matrix [OF Y c cb])
  show ?thesis
    by (simp add: next_instance_def Let_def gx gy flatten_def nd_size_def)
qed

lemma init_arrays:
  assumes ok: "make_regression_ok n f t made" and i: "init (Inr made) n f i t = Inr g0"
  shows "self_X g0 = fst made"
    and "shape (self_y g0) = [nat n * nat t, nat t]"
    and "entries (self_y g0) =
           entries (snd made) @ replicate (nat n * nat t * nat t - nat n * nat t) 0"
proof -
  obtain Xm ym where made: "made = (Xm, ym)" by (cases made)
  have sz: "nd_size ym = nat n * nat t" and len: "length (entries ym) = nat n * nat t"
    and t: "0 \<le> t"
    using ok by (simp_all add: make_regression_ok_def made)
  have le: "nat n * nat t \<le> nat n * nat t * nat t \<or> nat t = 0"
    by (cases "nat t") simp_all
  have tk: "take (nat n * nat t * nat t)
      (entries ym @ replicate (nat n * nat t * nat t - nat n * nat t) 0) =
      entries ym @ replicate (nat n * nat t * nat t - nat n * nat t) 0"
    using le len by auto
  have r0: "resize ym [int (nd_size ym), t] =
     (if nd_size ym * nat t \<noteq> nd_size ym \<and> \<not> owndata ym then Inl ValueError
      else Inr (ym\<lparr>shape := [nd_size ym, nat t],
                   entries := take (nd_size ym * nat t)
                     (entries ym @ replicate (nd_size ym * nat t - length (entries ym)) 0)\<rparr>))"
    using t by (simp add: resize_def Let_def)
  have r: "resize ym [int (nd_size ym), t] =
     (if nat n * nat t * nat t \<noteq> nat n * nat t \<and> \<not> owndata ym then Inl ValueError
      else Inr (ym\<lparr>shape := [nat n * nat t, nat t],
                   entries := entries ym @ replicate (nat n * nat t * nat t - nat n * nat t) 0\<rparr>))"
    using r0 by (simp only: sz len tk)
  from i show "self_X g0 = fst made"
    by (auto simp: init_def made split: sum.splits)
  from i show "shape (self_y g0) = [nat n * nat t, nat t]"
    by (auto simp: init_def made r split: sum.splits if_splits)
  from i show "entries (self_y g0) =
           entries (snd made) @ replicate (nat n * nat t * nat t - nat n * nat t) 0"
    by (auto simp: init_def made r split: sum.splits if_splits)
qed

lemma rows_of_padded:
  "(k + cnt) * w \<le> length es \<Longrightarrow> rows_of (es @ zs) w k cnt = rows_of es w k cnt"
  by (simp add: rows_of_def add_mult_distrib)

lemma length_rows_of:
  "(k + cnt) * w \<le> length es \<Longrightarrow> length (rows_of es w k cnt) = cnt * w"
  by (simp add: rows_of_def add_mult_distrib)

lemma handler_unreachable:
  assumes ok: "make_regression_ok n f t made" and i: "init (Inr made) n f i t = Inr g0"
  shows "fst (fst (next_instance b (run calls g0))) \<noteq> None \<and>
         snd (fst (next_instance b (run calls g0))) \<noteq> None"
proof -
  let ?g = "run calls g0"
  have Xs: "shape (self_X ?g) = [nat n, nat f]"
    using run_frame [of calls g0] init_arrays(1) [OF ok i] ok
    by (simp add: make_regression_ok_def)
  have Ys: "shape (self_y ?g) = [nat n * nat t, nat t]"
    using run_frame [of calls g0] init_arrays(2) [OF ok i] by simp
  obtain bx where bx: "getitem_rows (self_X ?g) (instance_index ?g) (instance_index ?g + b) = Some bx"
    using getitem_rows_some [OF Xs] by blast
  obtain bt where bt: "getitem_rows (self_y ?g) (instance_index ?g) (instance_index ?g + b) = Some bt"
    using getitem_rows_some [OF Ys] by blast
  show ?thesis
    by (simp add: next_instance_def Let_def bx bt)
qed

lemma duo_init: "init (Inr (duo_X, duo_y)) 3 1 1 2 = Inr duo"
  by (simp add: init_def resize_def nd_size_def duo_X_def duo_y_def duo_def numeral_eq_Suc)

lemma duo_ok: "make_regression_ok 3 1 2 (duo_X, duo_y)"
  by (simp add: make_regression_ok_def nd_size_def duo_X_def duo_y_def)

lemma next_instance_single:
  assumes X: "self_X g = Xm" and Xs: "shape Xm = [N, F]"
    and Ys: "shape (self_y g) = [N * T, T]"
    and Ye: "entries (self_y g) = entries ym @ zs"
    and len: "length (entries ym) = N * T"
    and T: "num_target_tasks g = int T"
    and c: "instance_index g = int c" and lt: "c < N"
  shows "fst (next_instance 1 g) = sample_batch Xm ym F T c"
proof -
  have Xs': "shape (self_X g) = [N, F]" using X Xs by simp
  have c0: "0 \<le> instance_index g" using c by simp
  note r = next_instance_matrix [OF Xs' Ys c0, of 1, simplified]
  have nx: "nat (instance_index g + 1) = Suc c" "nat (instance_index g) = c"
    using c by simp_all
  have mx: "min (Suc c) N = Suc c" "min c N = c" using lt by simp_all
  show ?thesis
  proof (cases "T = 0")
    case True
    then show ?thesis
      by (simp add: r nx mx X T sample_batch_def rows_of_def)
  next
    case False
    then have "N * 1 \<le> N * T" by (intro mult_le_mono2) simp
    then have "Suc c \<le> N * T" "c \<le> N * T" using lt by linarith+
    then have my: "min (Suc c) (N * T) = Suc c" "min c (N * T) = c"
      by (simp_all only: min.absorb1)
    have "(c + 1) * T \<le> N * T" using lt by (intro mult_le_mono1) simp
    then have "rows_of (entries ym @ zs) T c 1 = rows_of (entries ym) T c 1"
      by (intro rows_of_padded) (simp add: len)
    then show ?thesis
      using False by (simp add: r nx mx my X T Ye sample_batch_def)
  qed
qed

lemma read_singly_rows:
  assumes Xs: "shape Xm = [N, F]" and len: "length (entries ym) = N * T"
  shows "self_X g = Xm \<Longrightarrow> shape (self_y g) = [N * T, T] \<Longrightarrow>
     entries (self_y g) = entries ym @ zs \<Longrightarrow> num_target_tasks g = int T \<Longrightarrow>
     instance_index g = int c \<Longrightarrow> c + k \<le> N \<Longrightarrow>
     fst (read_singly k g) = map (sample_batch Xm ym F T) [c..<c + k] \<and>
     instance_index (snd (read_singly k g)) = int (c + k) \<and>
     num_samples (snd (read_singly k g)) = num_samples g"
proof (induction k arbitrary: g c)
  case 0
  then show ?case by simp
next
  case (Suc k)
  let ?g1 = "snd (next_instance 1 g)"
  have lt: "c < N" using Suc.prems(6) by simp
  have first: "fst (next_instance 1 g) = sample_batch Xm ym F T c"
    by (rule next_instance_single [OF Suc.prems(1) Xs Suc.prems(2) Suc.prems(3) len
          Suc.prems(4) Suc.prems(5) lt])
  have idx: "instance_index ?g1 = int (Suc c)"
    by (simp add: next_instance_index Suc.prems(5))
  have le: "Suc c + k \<le> N" using Suc.prems(6) by simp
  have IH: "fst (read_singly k ?g1) = map (sample_batch Xm ym F T) [Suc c..<Suc c + k] \<and>
     instance_index (snd (read_singly k ?g1)) = int (Suc c + k) \<and>
     num_samples (snd (read_singly k ?g1)) = num_samples ?g1"
    by (rule Suc.IH [OF _ _ _ _ idx le])
       (simp_all add: next_instance_frame Suc.prems)
  have unfold: "read_singly (Suc k) g =
     (fst (next_instance 1 g) # fst (read_singly k ?g1), snd (read_singly k ?g1))"
    by (simp add: case_prod_beta)
  have upt: "[c..<c + Suc k] = c # [Suc c..<Suc c + k]"
    by (simp add: upt_conv_Cons)
  show ?case
    using IH first by (simp only: unfold upt fst_conv snd_conv list.map next_instance_frame)
       simp
qed

section \<open>The claims\<close>

text \<open>
  C1. The claim is that \<^verbatim>\<open>restart\<close> sets the index back to 0. The method's body is
  \<^verbatim>\<open>pass\<close>, although \<^verbatim>\<open>is_restartable\<close> answers true: on the stream of ten
  samples, after a batch of four and a restart the index is still 4 and six samples
  remain, and after a batch of ten and a restart there are still no more instances.
\<close>

theorem restart_keeps_cursor:
  "fst (is_restartable demo) \<and>
   instance_index (run [NextInstance 4, Restart] demo) = 4 \<and>
   fst (estimated_remaining_instances (run [NextInstance 4, Restart] demo)) = 6 \<and>
   \<not> fst (has_more_instances (run [NextInstance 10, Restart] demo))"
  by (simp add: eval_defs is_restartable_def)

text \<open>
  C2. The claim is that a read running past the end returns a pair of empty results. On
  the stream of ten samples, a batch of ten asked for after a batch of four returns the
  six rows that are left and their six targets: a slice does not raise, so the handler of
  the \<^verbatim>\<open>try\<close> is not reached (\<open>handler_unreachable\<close> above says so for every
  constructed stream).
\<close>

theorem overrun_returns_remaining_rows:
  "fst (next_instance 10 (run [NextInstance 4] demo)) =
     (Some \<lparr>shape = [6, 3],
        entries = [13, 14, 15, 16, 17, 18, 19, 20, 21, 22, 23, 24, 25, 26, 27, 28, 29, 30],
        owndata = False\<rparr>,
      Some \<lparr>shape = [6], entries = [105, 106, 107, 108, 109, 110], owndata = True\<rparr>)"
  by (simp add: eval_defs)




text \<open>
  C4. Every call of \<^verbatim>\<open>next_instance\<close> moves the index by exactly the batch size,
  whatever the state and whatever the slices give back (also when they come back short,
  empty, or when the handler runs): the index is moved before the \<^verbatim>\<open>try\<close>. So the
  range of a read that could not be served in full is consumed all the same.
\<close>

theorem next_instance_advances:
  "instance_index (snd (next_instance batch_size g)) = instance_index g + batch_size"
  by (simp add: next_instance_def Let_def split: option.splits)

text \<open>
  C5. On a generator constructed for \<open>n\<close> samples, \<open>n\<close> calls of
  \<^verbatim>\<open>next_instance\<close> with batch size 1 return, in this order, the batches holding
  sample 0, sample 1, ... sample \<open>n - 1\<close> of the generated dataset, each once; after
  them \<^verbatim>\<open>has_more_instances\<close> is false.
\<close>

theorem single_reads_visit_every_row:
  assumes ok: "make_regression_ok n f t (Xm, ym)"
    and i: "init (Inr (Xm, ym)) n f i t = Inr g0"
  shows "fst (read_singly (nat n) g0) =
           map (sample_batch Xm ym (nat f) (nat t)) [0..<nat n] \<and>
         \<not> fst (has_more_instances (snd (read_singly (nat n) g0)))"
proof -
  have Xs: "shape Xm = [nat n, nat f]" and len: "length (entries ym) = nat n * nat t"
    and n: "0 \<le> n" and t: "0 \<le> t"
    using ok by (simp_all add: make_regression_ok_def)
  have X: "self_X g0 = Xm" using init_arrays(1) [OF ok i] by simp
  have Ye: "entries (self_y g0) =
      entries ym @ replicate (nat n * nat t * nat t - nat n * nat t) 0"
    using init_arrays(3) [OF ok i] by simp
  have T: "num_target_tasks g0 = int (nat t)"
    using init_fields(3) [OF i] t by simp
  have c: "instance_index g0 = int 0"
    using init_fields(5) [OF i] by simp
  have le: "0 + nat n \<le> nat n" by simp
  have rows: "fst (read_singly (nat n) g0) =
       map (sample_batch Xm ym (nat f) (nat t)) [0..<0 + nat n] \<and>
     instance_index (snd (read_singly (nat n) g0)) = int (0 + nat n) \<and>
     num_samples (snd (read_singly (nat n) g0)) = num_samples g0"
    by (rule read_singly_rows [OF Xs len X init_arrays(2) [OF ok i] Ye T c le])
  then show ?thesis
    using n by (simp add: has_more_instances_def init_fields(1) [OF i])
qed

theorem single_reads_visit_every_row_witness:
  "make_regression_ok 3 1 2 (duo_X, duo_y) \<and>
   init (Inr (duo_X, duo_y)) 3 1 1 2 = Inr duo \<and>
   fst (read_singly 3 duo) =
     [(Some \<lparr>shape = [1, 1], entries = [1], owndata = False\<rparr>,
       Some \<lparr>shape = [1, 2], entries = [11, 12], owndata = False\<rparr>),
      (Some \<lparr>shape = [1, 1], entries = [2], owndata = False\<rparr>,
       Some \<lparr>shape = [1, 2], entries = [21, 22], owndata = False\<rparr>),
      (Some \<lparr>shape = [1, 1], entries = [3], owndata = False\<rparr>,
       Some \<lparr>shape = [1, 2], entries = [31, 32], owndata = False\<rparr>)] \<and>
   fst (has_more_instances (snd (read_singly 3 duo))) = False"
proof -
  have upt: "[0..<3] = [0, 1, 2::nat]" by (simp add: upt_rec)
  show ?thesis
    using single_reads_visit_every_row [OF duo_ok duo_init] duo_ok duo_init
    by (simp add: upt sample_batch_def rows_of_def duo_X_def duo_y_def)
qed

text \<open>
  C6. A call of \<^verbatim>\<open>next_instance\<close> that stays in range (the index is not negative,
  the batch size is not negative, and the index after the call is at most the sample
  count) returns, when \<^verbatim>\<open>get_num_targets\<close> is 1, a one-dimensional target array of
  shape [batch size], and when it is at least 2, a two-dimensional one of shape
  [batch size, number of targets]; the array holds batch size times number of targets
  entries, those of the samples read.
\<close>

theorem target_shape:
  assumes ok: "make_regression_ok n f t (Xm, ym)"
    and i: "init (Inr (Xm, ym)) n f i t = Inr g0"
    and g: "g = run calls g0"
    and c: "0 \<le> instance_index g"
    and b: "0 \<le> b"
    and inr: "instance_index g + b \<le> n"
  shows "(fst (get_num_targets g) = 1 \<longrightarrow>
           snd (fst (next_instance b g)) =
             Some \<lparr>shape = [nat b],
                    entries = rows_of (entries ym) 1 (nat (instance_index g)) (nat b),
                    owndata = True\<rparr>) \<and>
         (2 \<le> fst (get_num_targets g) \<longrightarrow>
           snd (fst (next_instance b g)) =
             Some \<lparr>shape = [nat b, nat (fst (get_num_targets g))],
                    entries = rows_of (entries ym) (nat (fst (get_num_targets g)))
                      (nat (instance_index g)) (nat b),
                    owndata = False\<rparr>) \<and>
         length (rows_of (entries ym) (nat (fst (get_num_targets g)))
                   (nat (instance_index g)) (nat b)) = nat b * nat (fst (get_num_targets g))"
proof -
  have Xs: "shape (self_X g) = [nat n, nat f]"
    using g run_frame [of calls g0] init_arrays(1) [OF ok i] ok
    by (simp add: make_regression_ok_def)
  have Ys: "shape (self_y g) = [nat n * nat t, nat t]"
    using g run_frame [of calls g0] init_arrays(2) [OF ok i] by simp
  have Ye: "entries (self_y g) = entries ym @ replicate (nat n * nat t * nat t - nat n * nat t) 0"
    using g run_frame [of calls g0] init_arrays(3) [OF ok i] by simp
  have T: "num_target_tasks g = t"
    using g run_frame [of calls g0] init_fields(3) [OF i] by simp
  have len: "length (entries ym) = nat n * nat t"
    using ok by (simp add: make_regression_ok_def)
  note r = next_instance_matrix [OF Xs Ys c b]
  have hi: "nat (instance_index g + b) \<le> nat n"
    using inr by simp
  have sum: "nat (instance_index g + b) = nat (instance_index g) + nat b"
    using c b by (simp add: nat_add_distrib)
  have rows: "min (nat (instance_index g + b)) (nat n * nat t) = nat (instance_index g) + nat b \<and>
              min (nat (instance_index g)) (nat n * nat t) = nat (instance_index g)" if "1 \<le> t"
  proof -
    have "1 \<le> nat t" using that by linarith
    then have le: "nat n * 1 \<le> nat n * nat t" by (rule mult_le_mono2)
    have hi': "nat (instance_index g) + nat b \<le> nat n * nat t"
      using hi sum le by linarith
    then have lo': "nat (instance_index g) \<le> nat n * nat t" by linarith
    show ?thesis using hi' lo' by (simp only: sum min.absorb1)
  qed
  have pad: "rows_of (entries ym @ zs) (nat t) (nat (instance_index g)) (nat b) =
             rows_of (entries ym) (nat t) (nat (instance_index g)) (nat b)" for zs
  proof (rule rows_of_padded)
    have "(nat (instance_index g) + nat b) * nat t \<le> nat n * nat t"
      using hi sum by (simp add: mult_le_mono1)
    then show "(nat (instance_index g) + nat b) * nat t \<le> length (entries ym)"
      by (simp add: len)
  qed
  have one: "snd (fst (next_instance b g)) =
             Some \<lparr>shape = [nat b],
                    entries = rows_of (entries ym) 1 (nat (instance_index g)) (nat b),
                    owndata = True\<rparr>" if "t = 1"
    using that rows pad by (simp add: r T Ye)
  have more: "snd (fst (next_instance b g)) =
             Some \<lparr>shape = [nat b, nat t],
                    entries = rows_of (entries ym) (nat t) (nat (instance_index g)) (nat b),
                    owndata = False\<rparr>" if "2 \<le> t"
    using that rows pad by (simp add: r T Ye)
  have "(nat (instance_index g) + nat b) * nat t \<le> nat n * nat t"
    using hi sum by (simp add: mult_le_mono1)
  then have "(nat (instance_index g) + nat b) * nat t \<le> length (entries ym)"
    by (simp add: len)
  then have lenr: "length (rows_of (entries ym) (nat t) (nat (instance_index g)) (nat b)) =
      nat b * nat t"
    by (rule length_rows_of)
  show ?thesis
    using one more lenr by (simp add: get_num_targets_def T)
qed

theorem target_shape_witness:
  "make_regression_ok 10 3 1 (demo_X, demo_y) \<and>
   init (Inr (demo_X, demo_y)) 10 3 2 1 = Inr demo \<and>
   instance_index (run [NextInstance 4] demo) = 4 \<and>
   fst (get_num_targets (run [NextInstance 4] demo)) = 1 \<and>
   snd (fst (next_instance 3 (run [NextInstance 4] demo))) =
     Some \<lparr>shape = [3], entries = rows_of (entries demo_y) 1 4 3, owndata = True\<rparr> \<and>
   make_regression_ok 3 1 2 (duo_X, duo_y) \<and>
   init (Inr (duo_X, duo_y)) 3 1 1 2 = Inr duo \<and>
   instance_index (run [] duo) = 0 \<and>
   fst (get_num_targets (run [] duo)) = 2 \<and>
   snd (fst (next_instance 2 (run [] duo))) =
     Some \<lparr>shape = [2, 2], entries = rows_of (entries duo_y) 2 0 2, owndata = False\<rparr>"
proof -
  have i1: "instance_index (run [NextInstance 4] demo) = 4"
    by (simp add: run_index demo_def)
  have t1: "fst (get_num_targets (run [NextInstance 4] demo)) = 1"
    using run_frame [of "[NextInstance 4]" demo] by (simp add: get_num_targets_def demo_def)
  have c1: "0 \<le> instance_index (run [NextInstance 4] demo)"
    and r1: "instance_index (run [NextInstance 4] demo) + 3 \<le> 10"
    by (simp_all add: i1)
  have b1: "(0::int) \<le> 3" by simp
  have i2: "instance_index (run [] duo) = 0"
    by (simp add: run_index duo_def)
  have t2: "fst (get_num_targets (run [] duo)) = 2"
    by (simp add: run_Nil get_num_targets_def duo_def)
  have c2: "0 \<le> instance_index (run [] duo)"
    and r2: "instance_index (run [] duo) + 2 \<le> 3"
    by (simp_all add: i2)
  have b2: "(0::int) \<le> 2" by simp
  show ?thesis
    using target_shape [OF demo_ok demo_init refl c1 b1 r1]
      target_shape [OF duo_ok duo_init refl c2 b2 r2]
      demo_ok demo_init duo_ok duo_init
    by (simp add: i1 t1 i2 t2)
qed

text \<open>
  C7. In every state reached from a constructed generator,
  \<^verbatim>\<open>estimated_remaining_instances\<close> returns the sample count minus the index and
  leaves the object as it is, \<^verbatim>\<open>has_more_instances\<close> is true exactly when that
  number is positive (and leaves the object as it is), and a call of
  \<^verbatim>\<open>next_instance\<close> lowers the remaining count by exactly the batch size.
\<close>

theorem remaining_and_has_more:
  assumes "init made n f i t = Inr g0" and "g = run calls g0"
  shows "fst (estimated_remaining_instances g) = n - instance_index g \<and>
         snd (estimated_remaining_instances g) = g \<and>
         fst (has_more_instances g) = (0 < fst (estimated_remaining_instances g)) \<and>
         snd (has_more_instances g) = g \<and>
         fst (estimated_remaining_instances (snd (next_instance b g))) =
           fst (estimated_remaining_instances g) - b"
proof -
  have "num_samples g = n"
    using assms run_frame [of calls g0] by (simp add: init_fields(1))
  then show ?thesis
    by (simp add: estimated_remaining_instances_def has_more_instances_def
          next_instance_frame(3) next_instance_index)
qed

theorem remaining_and_has_more_witness:
  "init (Inr (demo_X, demo_y)) 10 3 2 1 = Inr demo \<and>
   fst (estimated_remaining_instances (run [NextInstance 4] demo)) =
     10 - instance_index (run [NextInstance 4] demo) \<and>
   fst (estimated_remaining_instances (snd (next_instance 3 (run [NextInstance 4] demo)))) =
     fst (estimated_remaining_instances (run [NextInstance 4] demo)) - 3"
  using remaining_and_has_more [OF demo_init refl, of "[NextInstance 4]" 3] demo_init
  by simp

text \<open>
  C8. \<^verbatim>\<open>get_last_instance\<close> returns the pair the most recent \<^verbatim>\<open>next_instance\<close>
  returned (also after any calls that are not reads) and leaves the object unchanged;
  \<^verbatim>\<open>next_instance\<close> changes the index and the two fields of the last batch and
  nothing else; the two arrays of the dataset are the same after any sequence of calls.
\<close>

theorem last_instance_frame:
  assumes "\<not> list_ex is_read later"
  shows "fst (get_last_instance (run later (snd (next_instance b g)))) = fst (next_instance b g) \<and>
         snd (get_last_instance g) = g \<and>
         snd (next_instance b g) =
           g\<lparr>instance_index := instance_index g + b,
             current_instance_y := snd (fst (next_instance b g)),
             current_instance_x := fst (fst (next_instance b g))\<rparr> \<and>
         self_X (run calls g) = self_X g \<and> self_y (run calls g) = self_y g"
proof -
  have "run later (snd (next_instance b g)) = snd (next_instance b g)"
    using assms by (rule run_no_read)
  then have "fst (get_last_instance (run later (snd (next_instance b g)))) = fst (next_instance b g)"
    by (simp add: get_last_instance_def next_instance_result)
  moreover have "snd (get_last_instance g) = g"
    by (simp add: get_last_instance_def)
  ultimately show ?thesis
    using next_instance_changes [of b g] run_frame [of calls g] by simp
qed

theorem last_instance_frame_witness:
  "\<not> list_ex is_read [HasMore, GetLastInstance, Restart] \<and>
   fst (get_last_instance (run [HasMore, GetLastInstance, Restart] (snd (next_instance 4 demo)))) =
     fst (next_instance 4 demo)"
proof -
  have h: "\<not> list_ex is_read [HasMore, GetLastInstance, Restart]" by simp
  from last_instance_frame [OF h, of 4 demo "[]"]
  have "fst (get_last_instance (run [HasMore, GetLastInstance, Restart] (snd (next_instance 4 demo)))) =
     fst (next_instance 4 demo)" by (rule conjunct1)
  with h show ?thesis by (rule conjI)
qed

text \<open>
  C9. After a construction that succeeded for feature count \<open>f\<close> and target count
  \<open>t\<close>, \<^verbatim>\<open>get_num_attributes\<close> returns \<open>f\<close> and \<^verbatim>\<open>get_num_targets\<close> returns
  \<open>t\<close> after any sequence of calls, and neither changes the object.
\<close>

theorem counts_fixed:
  assumes "init made n f i t = Inr g0"
  shows "fst (get_num_attributes (run calls g0)) = f \<and>
         fst (get_num_targets (run calls g0)) = t \<and>
         snd (get_num_attributes (run calls g0)) = run calls g0 \<and>
         snd (get_num_targets (run calls g0)) = run calls g0"
  using run_frame [of calls g0] init_fields(2,3) [OF assms]
  by (simp add: get_num_attributes_def get_num_targets_def)

theorem counts_fixed_witness:
  "init (Inr (demo_X, demo_y)) 10 3 2 1 = Inr demo \<and>
   fst (get_num_attributes (run [NextInstance 4, Restart, NextInstance 10] demo)) = 3 \<and>
   fst (get_num_targets (run [NextInstance 4, Restart, NextInstance 10] demo)) = 1"
  using counts_fixed [OF demo_init, of "[NextInstance 4, Restart, NextInstance 10]"] demo_init
  by simp

text \<open>
  C10. Right after construction \<^verbatim>\<open>get_last_instance\<close> returns the pair
  \<^verbatim>\<open>(None, None)\<close>.
\<close>

theorem last_instance_initially_none:
  assumes "init made n f i t = Inr g0"
  shows "fst (get_last_instance g0) = (None, None)"
  using init_fields(6,7) [OF assms] by (simp add: get_last_instance_def)

theorem last_instance_initially_none_witness:
  "init (Inr (demo_X, demo_y)) 10 3 2 1 = Inr demo \<and> fst (get_last_instance demo) = (None, None)"
  using last_instance_initially_none [OF demo_init] demo_init by simp

end
